theory Spec2Isabelle
  imports Complex_Main
begin

section \<open>SBCarousel: the navigation and gesture state of the carousel\<close>

text \<open>
  The component \<^verbatim>\<open>SBCarousel\<close> (SBCarousel.tsx) is a React function component. Its
  handlers are closures over the values of one render: every read of \<^verbatim>\<open>currentIndex\<close>,
  \<^verbatim>\<open>isDragging\<close>, \<^verbatim>\<open>touchClickPosition\<close>, \<^verbatim>\<open>scrollLeft\<close> and of the memoised
  \<^verbatim>\<open>itemWidth\<close> inside a handler sees the value of that render, and every
  \<^verbatim>\<open>setX(v)\<close> takes effect for the next render. A handler is therefore a function from
  the state of the render to the state of the next one: reads go to the argument, writes
  to the result. The only thing a handler changes in place is the DOM element behind
  \<^verbatim>\<open>carouselContentWrapperRef\<close>, through \<^verbatim>\<open>scrollTo\<close>.

  Indices and counts are \<^typ>\<open>int\<close>, pixel quantities are \<^typ>\<open>real\<close>. JavaScript
  computes with doubles. The snap to the closest item compares the scroll position with
  slot edges and a middle that it computes from the item width, and one unit in the last
  place decides which index comes out: there, and in the division that gives the item
  width, every operation is rounded as the double operation is (\<open>fl\<close> below). The
  products and differences of the commands and the gesture handlers are written down
  exactly; what the code writes is this value up to the rounding of each operation.
\<close>

subsection \<open>Double arithmetic\<close>

text \<open>
  \<open>fl x\<close> is the double nearest to \<open>x\<close>, ties going to the even significand, as
  IEEE 754 defines the result of \<^verbatim>\<open>+\<close>, \<^verbatim>\<open>*\<close> and \<^verbatim>\<open>/\<close> on doubles: \<open>normalise\<close>
  finds \<open>e\<close> with \<open>2 ^ e \<le> \<bar>x\<bar> < 2 ^ (e + 1)\<close>, not going below the exponent
  \<open>- 1022\<close> of the subnormal numbers, and the significand is rounded to 52 binary
  places. A double operation gives Infinity where the rounded result would reach
  \<open>2 ^ 1024\<close>, which \<^typ>\<open>real\<close> does not have: \<open>fl\<close> is the double operation on
  results of smaller magnitude only.
\<close>

definition pow2 :: "int \<Rightarrow> real" where
  "pow2 e = (if 0 \<le> e then 2 ^ nat e else 1 / 2 ^ nat (- e))"

function normalise :: "real \<Rightarrow> int \<Rightarrow> real \<times> int" where
  "normalise a e =
     (if 2 \<le> a \<and> e < 1024 then normalise (a / 2) (e + 1)
      else if a < 1 \<and> - 1022 < e then normalise (a * 2) (e - 1)
      else (a, e))"
  by pat_completeness auto
termination
  by (relation "measure (\<lambda>(a, e). if 2 \<le> a then nat (1024 - e)
                                  else if a < 1 then nat (e + 1022) else 0)") auto

declare normalise.simps [simp del]

definition roundHalfEven :: "real \<Rightarrow> int" where
  "roundHalfEven m =
     (let f = \<lfloor>m\<rfloor>; d = m - real_of_int f
      in if d < 1 / 2 then f
         else if 1 / 2 < d then f + 1
         else if even f then f else f + 1)"

definition fl :: "real \<Rightarrow> real" where
  "fl x =
     (if x = 0 then 0
      else (case normalise \<bar>x\<bar> 0 of
              (m, e) \<Rightarrow> sgn x * real_of_int (roundHalfEven (m * 2 ^ 52)) * pow2 (e - 52)))"

subsection \<open>Children\<close>

text \<open>
  The nodes passed as \<^verbatim>\<open>children\<close>, as a flat list. \<^verbatim>\<open>Children.count\<close> counts every
  node, empty ones (null, undefined, booleans) included; \<^verbatim>\<open>Children.toArray\<close> leaves
  the empty ones out. A child read from the array is tested with \<^verbatim>\<open>!child\<close>: the
  empty string and the number 0 are falsy, as is \<^verbatim>\<open>undefined\<close> read past the end.
\<close>

datatype child = EmptyNode | TextNode string | NumberNode int | ElementNode nat

definition Children_count :: "child list \<Rightarrow> int" where
  "Children_count cs = int (length cs)"

definition Children_toArray :: "child list \<Rightarrow> child list" where
  "Children_toArray cs = filter (\<lambda>c. c \<noteq> EmptyNode) cs"

fun truthy_child :: "child \<Rightarrow> bool" where
  "truthy_child EmptyNode = False"
| "truthy_child (TextNode t) = (t \<noteq> [])"
| "truthy_child (NumberNode n) = (n \<noteq> 0)"
| "truthy_child (ElementNode k) = True"

text \<open>\<^verbatim>\<open>childrenArray[index]\<close> followed by \<^verbatim>\<open>!child\<close>: past the end the read is undefined.\<close>

definition child_at_truthy :: "child list \<Rightarrow> int \<Rightarrow> bool" where
  "child_at_truthy arr index =
     (0 \<le> index \<and> index < int (length arr) \<and> truthy_child (arr ! nat index))"

subsection \<open>Props, the DOM element and the state of a render\<close>

record props =
  children :: "child list"
  itemsPerView :: int
  infiniteLoop :: bool
  freeScroll :: bool
  advancePagesOnAutoScroll :: bool
  scrollSensitivity :: real
  minDragDistance :: real
  autoplay :: bool
  showArrowButtons :: bool

text \<open>
  The element behind \<^verbatim>\<open>carouselContentWrapperRef.current\<close>. Its scroll position is the
  DOM's \<^verbatim>\<open>scrollLeft\<close>, called \<open>domScrollLeft\<close> here since the component has a state
  variable of the same name.
\<close>

record element =
  offsetWidth :: real
  offsetLeft :: real
  domScrollLeft :: real

record carousel =
  currentIndex :: int
  isDragging :: bool
  isMouseInside :: bool
  touchClickPosition :: "real option"
  scrollLeft :: real
  itemWidth :: real
  carouselContentWrapperRef :: "element option"

text \<open>\<^verbatim>\<open>const length = useMemo(() => Children.count(children), [children])\<close>\<close>

definition lengthC :: "props \<Rightarrow> int" where
  "lengthC p = Children_count (children p)"

definition isRepeating :: "props \<Rightarrow> bool" where
  "isRepeating p = (infiniteLoop p \<and> Children_count (children p) > itemsPerView p)"

text \<open>
  The memo \<^verbatim>\<open>itemWidth\<close>: computed during a render from the element the ref holds at
  that moment, 0 when it holds none. The division is JavaScript's, rounded to a double;
  for \<^verbatim>\<open>itemsPerView = 0\<close> it gives Infinity or NaN, which \<^typ>\<open>real\<close> does not have,
  so the memo is only defined here for a non-zero \<^verbatim>\<open>itemsPerView\<close>.
\<close>

definition itemWidth_memo :: "props \<Rightarrow> element option \<Rightarrow> real option" where
  "itemWidth_memo p r =
     (case r of
        None \<Rightarrow> Some 0
      | Some el \<Rightarrow>
          if itemsPerView p = 0 then None
          else Some (fl (offsetWidth el / real_of_int (itemsPerView p))))"

text \<open>The first render: all state at its initial value, the ref still empty.\<close>

definition initial :: "carousel" where
  "initial = \<lparr> currentIndex = 0, isDragging = False, isMouseInside = False,
               touchClickPosition = None, scrollLeft = 0, itemWidth = 0,
               carouselContentWrapperRef = None \<rparr>"

text \<open>Mounting attaches the element to the ref; no state changes, so nothing re-renders.\<close>

definition mount :: "element \<Rightarrow> carousel \<Rightarrow> carousel" where
  "mount el s = s\<lparr> carouselContentWrapperRef := Some el \<rparr>"

text \<open>
  A render recomputes the memo from the ref. It has no result here when the width is not
  a number of the model.
\<close>

definition rerender :: "props \<Rightarrow> carousel \<Rightarrow> carousel option" where
  "rerender p s =
     (case itemWidth_memo p (carouselContentWrapperRef s) of
        None \<Rightarrow> None
      | Some w \<Rightarrow> Some (s\<lparr> itemWidth := w \<rparr>))"

text \<open>
  React renders the component again after a handler when one of the five state variables
  has a new value; a handler that sets none, or sets each to the value it has, is not
  followed by a render, and the memo stays as it is.
\<close>

definition same_state :: "carousel \<Rightarrow> carousel \<Rightarrow> bool" where
  "same_state s s' =
     (currentIndex s' = currentIndex s \<and> isDragging s' = isDragging s
      \<and> isMouseInside s' = isMouseInside s \<and> touchClickPosition s' = touchClickPosition s
      \<and> scrollLeft s' = scrollLeft s)"

definition renderAfter :: "props \<Rightarrow> carousel \<Rightarrow> carousel \<Rightarrow> carousel option" where
  "renderAfter p s s' = (if same_state s s' then Some s' else rerender p s')"

text \<open>
  \<^verbatim>\<open>scrollRefTo(left, smooth, ref)\<close>: asks the element to scroll to \<open>left\<close>, nothing when
  the ref is empty. The model records the requested position as the element's scroll
  position; the animation of a smooth scroll and the browser's clamping of the position
  to the scrollable range are outside it.
\<close>

definition scrollRefTo :: "real \<Rightarrow> carousel \<Rightarrow> carousel" where
  "scrollRefTo left s =
     (case carouselContentWrapperRef s of
        None \<Rightarrow> s
      | Some el \<Rightarrow> s\<lparr> carouselContentWrapperRef := Some (el\<lparr> domScrollLeft := left \<rparr>) \<rparr>)"

subsection \<open>Navigation commands\<close>

text \<open>
  \<^verbatim>\<open>length % itemsPerView\<close> is JavaScript's remainder: the sign of the dividend, NaN for
  a zero divisor. A comparison with NaN is false, which is all \<^verbatim>\<open>nextPage\<close> does with it.
\<close>

definition js_rem :: "int \<Rightarrow> int \<Rightarrow> int option" where
  "js_rem a b = (if b = 0 then None else Some (sgn a * (\<bar>a\<bar> mod \<bar>b\<bar>)))"

definition nextPage_cond :: "props \<Rightarrow> carousel \<Rightarrow> bool" where
  "nextPage_cond p s =
     (case js_rem (lengthC p) (itemsPerView p) of
        None \<Rightarrow> False
      | Some r \<Rightarrow> currentIndex s + r < lengthC p)"

definition nextItem_guard :: "props \<Rightarrow> carousel \<Rightarrow> bool" where
  "nextItem_guard p s = (isRepeating p \<or> currentIndex s + itemsPerView p \<le> lengthC p)"

definition nextItem :: "props \<Rightarrow> carousel \<Rightarrow> carousel" where
  "nextItem p s =
     (if carouselContentWrapperRef s = None then s
      else if nextItem_guard p s then
        (let newIndex = (if currentIndex s + itemsPerView p < lengthC p
                         then currentIndex s + 1 else 0);
             newScrollLeft = real_of_int newIndex * itemWidth s
         in scrollRefTo newScrollLeft
              (s\<lparr> currentIndex := newIndex, scrollLeft := newScrollLeft,
                  touchClickPosition := None \<rparr>))
      else s)"

definition previousItem_guard :: "props \<Rightarrow> carousel \<Rightarrow> bool" where
  "previousItem_guard p s = (isRepeating p \<or> currentIndex s > 0)"

definition previousItem :: "props \<Rightarrow> carousel \<Rightarrow> carousel" where
  "previousItem p s =
     (if carouselContentWrapperRef s = None then s
      else if previousItem_guard p s then
        (let newIndex = (if currentIndex s > 0 then currentIndex s - 1 else lengthC p - 1);
             newScrollLeft = real_of_int newIndex * itemWidth s
         in scrollRefTo newScrollLeft
              (s\<lparr> currentIndex := newIndex, scrollLeft := newScrollLeft,
                  touchClickPosition := None \<rparr>))
      else s)"

definition nextPage_guard :: "props \<Rightarrow> carousel \<Rightarrow> bool" where
  "nextPage_guard p s = (isRepeating p \<or> nextPage_cond p s)"

definition nextPage :: "props \<Rightarrow> carousel \<Rightarrow> carousel" where
  "nextPage p s =
     (if carouselContentWrapperRef s = None then s
      else if nextPage_guard p s then
        (let newIndex = (if nextPage_cond p s then currentIndex s + itemsPerView p else 0);
             newScrollLeft = real_of_int newIndex * itemWidth s
         in scrollRefTo newScrollLeft
              (s\<lparr> currentIndex := newIndex, scrollLeft := newScrollLeft,
                  touchClickPosition := None \<rparr>))
      else s)"

definition previousPage_guard :: "props \<Rightarrow> carousel \<Rightarrow> bool" where
  "previousPage_guard p s = (isRepeating p \<or> currentIndex s \<ge> itemsPerView p)"

definition previousPage :: "props \<Rightarrow> carousel \<Rightarrow> carousel" where
  "previousPage p s =
     (if carouselContentWrapperRef s = None then s
      else if previousPage_guard p s then
        (let newIndex = (if currentIndex s - itemsPerView p \<ge> 0
                         then currentIndex s - itemsPerView p else lengthC p - 1);
             newScrollLeft = real_of_int newIndex * itemWidth s
         in scrollRefTo newScrollLeft
              (s\<lparr> currentIndex := newIndex, scrollLeft := newScrollLeft,
                  touchClickPosition := None \<rparr>))
      else s)"

text \<open>
  The conditions under which the arrow buttons, whose click runs a command, are rendered.
\<close>

definition leftArrowShown :: "props \<Rightarrow> carousel \<Rightarrow> bool" where
  "leftArrowShown p s = (showArrowButtons p \<and> (isRepeating p \<or> currentIndex s > 0))"

definition rightArrowShown :: "props \<Rightarrow> carousel \<Rightarrow> bool" where
  "rightArrowShown p s =
     (showArrowButtons p \<and> (isRepeating p \<or> currentIndex s < lengthC p - itemsPerView p))"

text \<open>
  One tick of the autoplay interval, which runs only while
  \<^verbatim>\<open>autoplay && !touchClickPosition && !isMouseInside\<close>.
\<close>

fun truthy_position :: "real option \<Rightarrow> bool" where
  "truthy_position None = False"
| "truthy_position (Some x) = (x \<noteq> 0)"

definition autoplayTick :: "props \<Rightarrow> carousel \<Rightarrow> carousel" where
  "autoplayTick p s =
     (if autoplay p \<and> \<not> truthy_position (touchClickPosition s) \<and> \<not> isMouseInside s
      then (if advancePagesOnAutoScroll p then nextPage p s else nextItem p s)
      else s)"

subsection \<open>Snapping to the closest item\<close>

text \<open>
  The loop of \<^verbatim>\<open>scrollToClosestItemIndex\<close>, from \<open>index\<close> on. It returns at the first
  falsy child, and stops at the first slot that holds the element's scroll position,
  after writing the index it resolves to. Each product, sum and quotient is a double
  operation; the comparisons are exact.
\<close>

function closestLoop :: "props \<Rightarrow> element \<Rightarrow> int \<Rightarrow> carousel \<Rightarrow> carousel" where
  "closestLoop p el index s =
     (if index < lengthC p then
        (let childLeft = fl (itemWidth s * real_of_int index);
             newScrollLeft = domScrollLeft el
         in if \<not> child_at_truthy (Children_toArray (children p)) index then s
            else if childLeft \<le> newScrollLeft
                    \<and> fl (childLeft + itemWidth s) \<ge> newScrollLeft then
              (let newIndex = (if fl (childLeft + fl (itemWidth s / 2)) > newScrollLeft
                               then index else index + 1)
               in scrollRefTo (fl (real_of_int newIndex * itemWidth s))
                    (s\<lparr> scrollLeft := fl (real_of_int newIndex * itemWidth s),
                        currentIndex := newIndex \<rparr>))
            else closestLoop p el (index + 1) s)
      else s)"
  by pat_completeness auto
termination
  by (relation "measure (\<lambda>(p, el, index, s). nat (lengthC p - index))") auto

declare closestLoop.simps [simp del]

definition scrollToClosestItemIndex :: "props \<Rightarrow> carousel \<Rightarrow> carousel" where
  "scrollToClosestItemIndex p s =
     (case carouselContentWrapperRef s of
        None \<Rightarrow> s
      | Some el \<Rightarrow> closestLoop p el 0 s)"

subsection \<open>Gesture handlers\<close>

text \<open>
  \<^verbatim>\<open>touchClickPosition && f()\<close> tests the truthiness of a \<^verbatim>\<open>null | number\<close>, as the
  autoplay condition does: null and the number 0 are falsy (\<open>truthy_position\<close>). The
  move handlers compare with \<^verbatim>\<open>=== null\<close> instead.
\<close>

text \<open>The argument \<open>pageX\<close> is \<^verbatim>\<open>e.touches[0].pageX\<close> of a touch event, \<^verbatim>\<open>e.pageX\<close> of a mouse event.\<close>

definition handleOnTouchStart :: "props \<Rightarrow> real \<Rightarrow> carousel \<Rightarrow> carousel" where
  "handleOnTouchStart p pageX s =
     (case carouselContentWrapperRef s of
        None \<Rightarrow> s
      | Some el \<Rightarrow> s\<lparr> touchClickPosition := Some (pageX - offsetLeft el),
                       scrollLeft := domScrollLeft el \<rparr>)"

definition handleOnTouchEnd :: "props \<Rightarrow> carousel \<Rightarrow> carousel" where
  "handleOnTouchEnd p s =
     (let s1 = s\<lparr> touchClickPosition := None \<rparr>;
          s2 = (if isDragging s then s1\<lparr> isDragging := False \<rparr> else s1)
      in if \<not> freeScroll p then scrollToClosestItemIndex p s2 else s2)"

definition handleOnTouchCancel :: "props \<Rightarrow> carousel \<Rightarrow> carousel" where
  "handleOnTouchCancel p s =
     (let s1 = (if truthy_position (touchClickPosition s) then handleOnTouchEnd p s else s)
      in if isDragging s then s1\<lparr> isDragging := False \<rparr> else s1)"

definition walk_of :: "props \<Rightarrow> element \<Rightarrow> real \<Rightarrow> real \<Rightarrow> real" where
  "walk_of p el pageX origin = ((pageX - offsetLeft el) - origin) * scrollSensitivity p"

definition handleOnTouchMove :: "props \<Rightarrow> real \<Rightarrow> carousel \<Rightarrow> carousel" where
  "handleOnTouchMove p pageX s =
     (case (touchClickPosition s, carouselContentWrapperRef s) of
        (Some origin, Some el) \<Rightarrow>
          (let walk = walk_of p el pageX origin;
               s1 = (if \<not> isDragging s \<and> \<bar>walk\<bar> > minDragDistance p
                     then s\<lparr> isDragging := True \<rparr> else s)
           in if isDragging s then scrollRefTo (scrollLeft s - walk) s1 else s1)
      | _ \<Rightarrow> s)"

definition handleOnMouseEnter :: "carousel \<Rightarrow> carousel" where
  "handleOnMouseEnter s = s\<lparr> isMouseInside := True \<rparr>"

definition handleOnMouseDown :: "props \<Rightarrow> real \<Rightarrow> carousel \<Rightarrow> carousel" where
  "handleOnMouseDown p pageX s =
     (case carouselContentWrapperRef s of
        None \<Rightarrow> s
      | Some el \<Rightarrow> s\<lparr> touchClickPosition := Some (pageX - offsetLeft el),
                       scrollLeft := domScrollLeft el \<rparr>)"

definition handleOnMouseUp :: "props \<Rightarrow> carousel \<Rightarrow> carousel" where
  "handleOnMouseUp p s =
     (let s1 = s\<lparr> touchClickPosition := None \<rparr>;
          s2 = (if \<not> freeScroll p then scrollToClosestItemIndex p s1 else s1)
      in if isDragging s then s2\<lparr> isDragging := False \<rparr> else s2)"

definition handleOnMouseLeave :: "props \<Rightarrow> carousel \<Rightarrow> carousel" where
  "handleOnMouseLeave p s =
     (let s1 = (if truthy_position (touchClickPosition s) then handleOnMouseUp p s else s)
      in s1\<lparr> isMouseInside := False \<rparr>)"

definition handleOnMouseMove :: "props \<Rightarrow> real \<Rightarrow> carousel \<Rightarrow> carousel" where
  "handleOnMouseMove p pageX s =
     (case (touchClickPosition s, carouselContentWrapperRef s) of
        (Some origin, Some el) \<Rightarrow>
          (let walk = walk_of p el pageX origin;
               s1 = (if \<bar>walk\<bar> > minDragDistance p
                     then (if \<not> isDragging s then s\<lparr> isDragging := True \<rparr> else s) else s)
           in if isDragging s then scrollRefTo (scrollLeft s - walk) s1 else s1)
      | _ \<Rightarrow> s)"

subsection \<open>Indicator dots\<close>

text \<open>
  The body of the loop of \<^verbatim>\<open>renderDots\<close> (SBCarouselIndicators.tsx) for one \<open>index\<close>:
  which of the three class names the dot gets. \<open>length\<close> is the prop of the indicator
  strip, the number of dots.
\<close>

datatype dot = Active | Close | Far

definition classify :: "int \<Rightarrow> int \<Rightarrow> int \<Rightarrow> dot" where
  "classify index calculatedActiveIndex len =
     (if calculatedActiveIndex = index then Active
      else if calculatedActiveIndex = 0 then
        (if calculatedActiveIndex + index \<le> 2 then Close else Far)
      else if calculatedActiveIndex = len - 1 then
        (if \<bar>calculatedActiveIndex - index\<bar> \<le> 2 then Close else Far)
      else
        (if \<bar>calculatedActiveIndex - index\<bar> = 1 then Close else Far))"

record indicatorClassNames =
  active :: "string option"
  close :: "string option"
  far :: "string option"

text \<open>\<^verbatim>\<open>indicatorClassNames?.active || "dots-active"\<close>: an empty string is falsy too.\<close>

definition or_default :: "string option \<Rightarrow> string \<Rightarrow> string" where
  "or_default v d = (case v of None \<Rightarrow> d | Some n \<Rightarrow> if n = [] then d else n)"

definition className :: "indicatorClassNames option \<Rightarrow> dot \<Rightarrow> string" where
  "className names d =
     (case d of
        Active \<Rightarrow> or_default (Option.bind names active) ''dots-active''
      | Close \<Rightarrow> or_default (Option.bind names close) ''dots-close''
      | Far \<Rightarrow> or_default (Option.bind names far) ''dots-far'')"

definition renderDots :: "indicatorClassNames option \<Rightarrow> int \<Rightarrow> int \<Rightarrow> (int \<times> string) list" where
  "renderDots names calculatedActiveIndex len =
     map (\<lambda>index. (index, className names (classify index calculatedActiveIndex len)))
       [0 .. len - 1]"

subsection \<open>Events\<close>

text \<open>
  What the component reacts to: a click on an arrow button (which runs the item or the
  page command, as \<^verbatim>\<open>advancePagesOnAutoScroll\<close> says), a direct call of a command, the
  pointer events of the content wrapper and the autoplay tick. Each event runs its
  handler on the state of the current render; a render follows when the state changed.
\<close>

datatype event =
    NextItem | PreviousItem | NextPage | PreviousPage
  | TouchStart real | TouchMove real | TouchEnd | TouchCancel
  | MouseEnter | MouseDown real | MouseUp | MouseLeave | MouseMove real
  | AutoplayTick

fun handle :: "props \<Rightarrow> event \<Rightarrow> carousel \<Rightarrow> carousel" where
  "handle p NextItem s = nextItem p s"
| "handle p PreviousItem s = previousItem p s"
| "handle p NextPage s = nextPage p s"
| "handle p PreviousPage s = previousPage p s"
| "handle p (TouchStart pageX) s = handleOnTouchStart p pageX s"
| "handle p (TouchMove pageX) s = handleOnTouchMove p pageX s"
| "handle p TouchEnd s = handleOnTouchEnd p s"
| "handle p TouchCancel s = handleOnTouchCancel p s"
| "handle p MouseEnter s = handleOnMouseEnter s"
| "handle p (MouseDown pageX) s = handleOnMouseDown p pageX s"
| "handle p MouseUp s = handleOnMouseUp p s"
| "handle p MouseLeave s = handleOnMouseLeave p s"
| "handle p (MouseMove pageX) s = handleOnMouseMove p pageX s"
| "handle p AutoplayTick s = autoplayTick p s"

fun run :: "props \<Rightarrow> event list \<Rightarrow> carousel \<Rightarrow> carousel option" where
  "run p [] s = Some s"
| "run p (e # es) s =
     (case renderAfter p s (handle p e s) of
        None \<Rightarrow> None
      | Some s' \<Rightarrow> run p es s')"

text \<open>The gesture tracker's state, read off the two state variables that hold it.\<close>

datatype gesture = Idle | Pressed | Dragging

definition gesture_of :: "carousel \<Rightarrow> gesture" where
  "gesture_of s =
     (if isDragging s then Dragging
      else if touchClickPosition s = None then Idle
      else Pressed)"

subsection \<open>Sample configurations\<close>

text \<open>
  A carousel of \<open>n\<close> element children with the component's default props
  (\<^verbatim>\<open>scrollSensitivity = 1\<close>, \<^verbatim>\<open>minDragDistance = 2\<close>, \<^verbatim>\<open>freeScroll = false\<close>, ...), and a
  content wrapper of a given width and left offset, scrolled to 0.
\<close>

definition items :: "nat \<Rightarrow> child list" where
  "items n = map ElementNode [0 ..< n]"

definition defaults :: "nat \<Rightarrow> int \<Rightarrow> bool \<Rightarrow> props" where
  "defaults n ipv loop =
     \<lparr> children = items n, itemsPerView = ipv, infiniteLoop = loop, freeScroll = False,
       advancePagesOnAutoScroll = True, scrollSensitivity = 1, minDragDistance = 2,
       autoplay = False, showArrowButtons = True \<rparr>"

definition wrapper :: "real \<Rightarrow> real \<Rightarrow> element" where
  "wrapper w l = \<lparr> offsetWidth = w, offsetLeft = l, domScrollLeft = 0 \<rparr>"

definition pressed_at_4 :: carousel where
  "pressed_at_4 = (mount (wrapper 400 0) initial)
                    \<lparr> currentIndex := 4, touchClickPosition := Some 50, itemWidth := 100 \<rparr>"

text \<open>A pointer-move event whose walk from \<open>origin\<close> does not exceed \<^verbatim>\<open>minDragDistance\<close>.\<close>

fun under_threshold :: "props \<Rightarrow> element \<Rightarrow> real \<Rightarrow> event \<Rightarrow> bool" where
  "under_threshold p el origin (MouseMove pageX) =
     (\<bar>walk_of p el pageX origin\<bar> \<le> minDragDistance p)"
| "under_threshold p el origin (TouchMove pageX) =
     (\<bar>walk_of p el pageX origin\<bar> \<le> minDragDistance p)"
| "under_threshold p el origin e = False"

text \<open>
  A press at position 50 on the fourth item: the wrapper is scrolled to 300, which the
  press has recorded as the baseline.
\<close>

definition scrolled_300 :: element where
  "scrolled_300 = \<lparr> offsetWidth = 400, offsetLeft = 0, domScrollLeft = 300 \<rparr>"

definition pressed_50 :: carousel where
  "pressed_50 = \<lparr> currentIndex = 3, isDragging = False, isMouseInside = True,
                  touchClickPosition = Some 50, scrollLeft = 300, itemWidth = 100,
                  carouselContentWrapperRef = Some scrolled_300 \<rparr>"

text \<open>
  The children the loop of the snap reads up to index \<open>i\<close> exist and are truthy, so
  that the loop does not return early.
\<close>

definition children_truthy_upto :: "props \<Rightarrow> int \<Rightarrow> bool" where
  "children_truthy_upto p i =
     (nat i < length (Children_toArray (children p))
      \<and> list_all truthy_child (take (nat i + 1) (Children_toArray (children p))))"

text \<open>
  The slot of the item \<open>index\<close> as the loop computes it for the item width \<open>w\<close>: its
  left edge \<^verbatim>\<open>childLeft\<close>, whether it holds the offset \<open>x\<close>, and its middle. The first
  slot that holds \<open>x\<close> is the one the loop stops at.
\<close>

definition childLeft_of :: "real \<Rightarrow> int \<Rightarrow> real" where
  "childLeft_of w index = fl (w * real_of_int index)"

definition in_slot :: "real \<Rightarrow> real \<Rightarrow> int \<Rightarrow> bool" where
  "in_slot w x index = (childLeft_of w index \<le> x \<and> fl (childLeft_of w index + w) \<ge> x)"

definition middle_of :: "real \<Rightarrow> int \<Rightarrow> real" where
  "middle_of w index = fl (childLeft_of w index + fl (w / 2))"

definition first_slot :: "real \<Rightarrow> real \<Rightarrow> int \<Rightarrow> bool" where
  "first_slot w x i = (in_slot w x i \<and> \<not> list_ex (in_slot w x) [0 .. i - 1])"

text \<open>
  Widths and counts of a layout: an offset width is a 32-bit integer of the DOM and an
  array has fewer than \<open>2 ^ 32\<close> entries. In this range no product or sum of the snap
  comes near \<open>2 ^ 1024\<close>, so that \<open>fl\<close> is the double operation throughout.
\<close>

definition layout_range :: "props \<Rightarrow> carousel \<Rightarrow> bool" where
  "layout_range p s = (\<bar>itemWidth s\<bar> \<le> 2 ^ 32 \<and> lengthC p \<le> 2 ^ 32)"

text \<open>
  A drag that has brought the wrapper to the middle of the first slot (items are 100
  wide), and a release with the wrapper in the middle of the third slot.
\<close>

definition at_midpoint :: carousel where
  "at_midpoint = \<lparr> currentIndex = 0, isDragging = True, isMouseInside = True,
                   touchClickPosition = Some 100, scrollLeft = 0, itemWidth = 100,
                   carouselContentWrapperRef =
                     Some \<lparr> offsetWidth = 400, offsetLeft = 0, domScrollLeft = 50 \<rparr> \<rparr>"

definition scrolled_250 :: element where
  "scrolled_250 = \<lparr> offsetWidth = 400, offsetLeft = 0, domScrollLeft = 250 \<rparr>"

definition released_at_250 :: carousel where
  "released_at_250 = \<lparr> currentIndex = 0, isDragging = False, isMouseInside = True,
                       touchClickPosition = None, scrollLeft = 0, itemWidth = 100,
                       carouselContentWrapperRef = Some scrolled_250 \<rparr>"

text \<open>
  Releases with item widths that are not integers: a wrapper of 400 with 7 items per
  view released at 200, and one of 320 with 3 items per view released at 160. Both
  offsets are the middle of a slot in exact arithmetic.
\<close>

definition released_at :: "real \<Rightarrow> int \<Rightarrow> real \<Rightarrow> carousel" where
  "released_at width ipv x =
     \<lparr> currentIndex = 0, isDragging = False, isMouseInside = True,
       touchClickPosition = None, scrollLeft = 0, itemWidth = fl (width / real_of_int ipv),
       carouselContentWrapperRef =
         Some \<lparr> offsetWidth = width, offsetLeft = 0, domScrollLeft = x \<rparr> \<rparr>"

section \<open>Properties\<close>

subsection \<open>Basic facts\<close>

lemmas sample_defs = defaults_def items_def wrapper_def mount_def initial_def

lemmas command_defs =
  nextItem_def nextItem_guard_def previousItem_def previousItem_guard_def
  nextPage_def nextPage_guard_def nextPage_cond_def previousPage_def previousPage_guard_def

text \<open>
  Unfolding these evaluates \<open>fl\<close> at a number. Some doubles as JavaScript prints
  them: \<^verbatim>\<open>400 / 7\<close> is 57.142857142857146, \<^verbatim>\<open>320 / 3\<close> is 106.66666666666667,
  \<^verbatim>\<open>0.1 * 3\<close> is 0.30000000000000004, and \<^verbatim>\<open>2 ** 53 + 1\<close> is \<open>2 ^ 53\<close>.
\<close>

lemmas fl_eval = fl_def normalise.simps roundHalfEven_def pow2_def Let_def

lemma fl_examples:
  "fl 100 = 100"
  "fl (400 / 7) = 8042142191733029 / 140737488355328"
  "fl (320 / 3) = 7505999378950827 / 70368744177664"
  "fl (fl (1 / 10) * 3) = 1351079888211149 / 4503599627370496"
  "fl (2 ^ 53 + 1) = 2 ^ 53"
  "fl (- 5 / 2) = - 5 / 2"
  by (simp_all add: fl_eval)

lemma fl_0 [simp]: "fl 0 = 0"
  by (simp add: fl_def)

lemma scrollRefTo_fields [simp]:
  "currentIndex (scrollRefTo l s) = currentIndex s"
  "isDragging (scrollRefTo l s) = isDragging s"
  "isMouseInside (scrollRefTo l s) = isMouseInside s"
  "touchClickPosition (scrollRefTo l s) = touchClickPosition s"
  "scrollLeft (scrollRefTo l s) = scrollLeft s"
  "itemWidth (scrollRefTo l s) = itemWidth s"
  by (simp_all add: scrollRefTo_def split: option.split)

lemma scrollRefTo_ref [simp]:
  "carouselContentWrapperRef (scrollRefTo l s) =
     map_option (\<lambda>el. el\<lparr> domScrollLeft := l \<rparr>) (carouselContentWrapperRef s)"
  by (simp add: scrollRefTo_def split: option.split)

lemma renderAfter_Some:
  assumes "itemsPerView p \<noteq> 0"
  shows "\<exists>w. renderAfter p s s' = Some (s'\<lparr> itemWidth := w \<rparr>)"
proof (cases "same_state s s'")
  case True
  then have "renderAfter p s s' = Some (s'\<lparr> itemWidth := itemWidth s' \<rparr>)"
    by (simp add: renderAfter_def)
  then show ?thesis ..
next
  case False
  then show ?thesis
    using assms
    by (cases "carouselContentWrapperRef s'")
      (auto simp: renderAfter_def rerender_def itemWidth_memo_def)
qed

lemma renderAfter_keeps:
  assumes "renderAfter p s s1 = Some s'"
  shows "currentIndex s' = currentIndex s1"
    and "carouselContentWrapperRef s' = carouselContentWrapperRef s1"
  using assms by (auto simp: renderAfter_def rerender_def split: option.splits if_splits)

lemma run_append:
  "run p (xs @ ys) s = Option.bind (run p xs s) (run p ys)"
  by (induction xs arbitrary: s) (auto split: option.split)

subsection \<open>Navigation commands\<close>

text \<open>
  In a valid configuration \<^verbatim>\<open>nextItem\<close>, \<^verbatim>\<open>previousItem\<close> and \<^verbatim>\<open>previousPage\<close> take the
  index of an item to the index of an item. Without repeating, the guard and the index
  expression of \<^verbatim>\<open>previousItem\<close>, \<^verbatim>\<open>nextPage\<close> and \<^verbatim>\<open>previousPage\<close> are the same
  test, so that these commands never wrap; those of \<^verbatim>\<open>nextItem\<close> differ at
  \<open>currentIndex + itemsPerView = length\<close>.
\<close>

lemma item_commands_keep_range:
  assumes "1 \<le> itemsPerView p" and "itemsPerView p \<le> lengthC p"
    and "0 \<le> currentIndex s" and "currentIndex s < lengthC p"
  shows "0 \<le> currentIndex (nextItem p s) \<and> currentIndex (nextItem p s) < lengthC p"
    and "0 \<le> currentIndex (previousItem p s) \<and> currentIndex (previousItem p s) < lengthC p"
    and "0 \<le> currentIndex (previousPage p s) \<and> currentIndex (previousPage p s) < lengthC p"
  using assms by (auto simp: nextItem_def previousItem_def previousPage_def Let_def)

lemma nextItem_not_repeating:
  assumes "carouselContentWrapperRef s \<noteq> None" and "\<not> isRepeating p"
  shows "currentIndex s + itemsPerView p < lengthC p \<Longrightarrow>
           currentIndex (nextItem p s) = currentIndex s + 1"
    and "currentIndex s + itemsPerView p = lengthC p \<Longrightarrow> currentIndex (nextItem p s) = 0"
    and "currentIndex s + itemsPerView p > lengthC p \<Longrightarrow> nextItem p s = s"
  using assms by (auto simp: nextItem_def nextItem_guard_def Let_def)

lemma other_commands_not_repeating:
  assumes "\<not> isRepeating p"
  shows "previousItem p s = s \<or> currentIndex (previousItem p s) = currentIndex s - 1"
    and "nextPage p s = s \<or> currentIndex (nextPage p s) = currentIndex s + itemsPerView p"
    and "previousPage p s = s \<or> currentIndex (previousPage p s) = currentIndex s - itemsPerView p"
  using assms
  by (auto simp: previousItem_def previousItem_guard_def nextPage_def nextPage_guard_def
      previousPage_def previousPage_guard_def Let_def)

text \<open>
  C1. The claim: from every reachable state of a valid configuration, each command and
  the snap either leave the state as it is or produce a \<open>currentIndex\<close> in
  \<open>[0, length - 1]\<close>. The code at 8 items, 4 per view, no looping: the first
  \<^verbatim>\<open>nextPage()\<close> after mounting gives index 4, and the second passes its guard
  (\<open>4 + 8 % 4 < 8\<close>) and gives index 8, which is \<open>length\<close>.
\<close>

theorem nextPage_leaves_item_range:
  "lengthC (defaults 8 4 False) = 8
   \<and> \<not> isRepeating (defaults 8 4 False)
   \<and> map_option currentIndex
        (run (defaults 8 4 False) [NextPage] (mount (wrapper 400 0) initial)) = Some 4
   \<and> map_option currentIndex
        (run (defaults 8 4 False) [NextPage, NextPage] (mount (wrapper 400 0) initial)) = Some 8"
  by (simp add: sample_defs command_defs js_rem_def lengthC_def Children_count_def
      isRepeating_def renderAfter_def same_state_def rerender_def itemWidth_memo_def
      fl_examples)

text \<open>
  C2. The claim: without repeating, \<^verbatim>\<open>nextItem()\<close> advances by one while
  \<open>currentIndex + itemsPerView < length\<close> and otherwise changes nothing. The code at 10
  items, 4 per view, no looping: six calls after mounting give index 6, where
  \<open>6 + 4 = 10\<close> still passes the guard \<open>\<le>\<close>, and the seventh call gives index 0.
\<close>

theorem nextItem_wraps_when_not_repeating:
  "lengthC (defaults 10 4 False) = 10
   \<and> \<not> isRepeating (defaults 10 4 False)
   \<and> map_option currentIndex
        (run (defaults 10 4 False) (replicate 6 NextItem) (mount (wrapper 400 0) initial)) = Some 6
   \<and> map_option currentIndex
        (run (defaults 10 4 False) (replicate 7 NextItem) (mount (wrapper 400 0) initial)) = Some 0"
  by (simp add: sample_defs command_defs lengthC_def Children_count_def
      isRepeating_def renderAfter_def same_state_def rerender_def itemWidth_memo_def
      fl_examples eval_nat_numeral)

text \<open>
  C10. Every directional command that passes its guard, the ref holding an element,
  sets \<open>touchClickPosition\<close> to null.
\<close>

theorem commands_clear_touchClickPosition:
  assumes "carouselContentWrapperRef s \<noteq> None"
  shows "(nextItem_guard p s \<longrightarrow> touchClickPosition (nextItem p s) = None)
       \<and> (previousItem_guard p s \<longrightarrow> touchClickPosition (previousItem p s) = None)
       \<and> (nextPage_guard p s \<longrightarrow> touchClickPosition (nextPage p s) = None)
       \<and> (previousPage_guard p s \<longrightarrow> touchClickPosition (previousPage p s) = None)"
  using assms
  by (auto simp: nextItem_def previousItem_def nextPage_def previousPage_def Let_def)

theorem commands_clear_touchClickPosition_witness:
  "carouselContentWrapperRef pressed_at_4 \<noteq> None
   \<and> touchClickPosition pressed_at_4 = Some 50
   \<and> nextItem_guard (defaults 10 4 False) pressed_at_4
   \<and> previousItem_guard (defaults 10 4 False) pressed_at_4
   \<and> nextPage_guard (defaults 10 4 False) pressed_at_4
   \<and> previousPage_guard (defaults 10 4 False) pressed_at_4
   \<and> touchClickPosition (nextItem (defaults 10 4 False) pressed_at_4) = None
   \<and> touchClickPosition (previousItem (defaults 10 4 False) pressed_at_4) = None
   \<and> touchClickPosition (nextPage (defaults 10 4 False) pressed_at_4) = None
   \<and> touchClickPosition (previousPage (defaults 10 4 False) pressed_at_4) = None"
  using commands_clear_touchClickPosition [of pressed_at_4 "defaults 10 4 False"]
  by (simp add: pressed_at_4_def sample_defs nextItem_guard_def previousItem_guard_def
      nextPage_guard_def nextPage_cond_def previousPage_guard_def js_rem_def lengthC_def
      Children_count_def isRepeating_def)

lemma no_element_no_op:
  assumes "carouselContentWrapperRef s = None"
  shows "nextItem p s = s" and "previousItem p s = s"
    and "nextPage p s = s" and "previousPage p s = s"
  using assms by (simp_all add: nextItem_def previousItem_def nextPage_def previousPage_def)

text \<open>
  C6. The claim: with the item width 0 every command is a no-op that leaves the index and
  the offset as they are. The commands return early when the ref holds no element
  (\<open>no_element_no_op\<close>), which is when a render sets the width to 0; but the width is a
  memo of the last render. The code right after mounting, with the element in place and
  the width still the 0 of the first render: \<^verbatim>\<open>nextItem()\<close> sets the index to 1 and
  \<^verbatim>\<open>nextPage()\<close> to 4, and the offset they write and scroll to is the index times 0.
  The render that follows has the width 100, the index 1 and the offset 0.
\<close>

theorem nextItem_at_zero_width_moves:
  "itemWidth (mount (wrapper 400 0) initial) = 0
   \<and> currentIndex (mount (wrapper 400 0) initial) = 0
   \<and> currentIndex (nextItem (defaults 10 4 False) (mount (wrapper 400 0) initial)) = 1
   \<and> scrollLeft (nextItem (defaults 10 4 False) (mount (wrapper 400 0) initial)) = 0
   \<and> map_option domScrollLeft
        (carouselContentWrapperRef (nextItem (defaults 10 4 False) (mount (wrapper 400 0) initial)))
       = Some 0
   \<and> currentIndex (nextPage (defaults 10 4 False) (mount (wrapper 400 0) initial)) = 4
   \<and> scrollLeft (nextPage (defaults 10 4 False) (mount (wrapper 400 0) initial)) = 0
   \<and> map_option currentIndex
        (run (defaults 10 4 False) [NextItem] (mount (wrapper 400 0) initial)) = Some 1
   \<and> map_option scrollLeft
        (run (defaults 10 4 False) [NextItem] (mount (wrapper 400 0) initial)) = Some 0
   \<and> map_option itemWidth
        (run (defaults 10 4 False) [NextItem] (mount (wrapper 400 0) initial)) = Some 100"
  by (simp add: sample_defs command_defs js_rem_def lengthC_def Children_count_def
      isRepeating_def renderAfter_def same_state_def rerender_def itemWidth_memo_def
      fl_examples)

lemma nextItem_repeating:
  assumes "carouselContentWrapperRef s \<noteq> None" and "isRepeating p"
  shows "currentIndex (nextItem p s) =
           (if currentIndex s + itemsPerView p < lengthC p then currentIndex s + 1 else 0)"
    and "carouselContentWrapperRef (nextItem p s) \<noteq> None"
  using assms by (auto simp: nextItem_def nextItem_guard_def Let_def)

lemma run_nextItem_counts:
  assumes "isRepeating p" and "itemsPerView p \<noteq> 0"
    and "carouselContentWrapperRef s \<noteq> None"
    and "currentIndex s + int k \<le> lengthC p - itemsPerView p"
  shows "\<exists>s'. run p (replicate k NextItem) s = Some s'
           \<and> currentIndex s' = currentIndex s + int k
           \<and> carouselContentWrapperRef s' \<noteq> None"
  using assms
proof (induction k arbitrary: s)
  case 0
  then show ?case by simp
next
  case (Suc k)
  obtain s1 where s1: "renderAfter p s (nextItem p s) = Some s1"
    using renderAfter_Some [OF Suc.prems(2)] by blast
  have "currentIndex s + itemsPerView p < lengthC p"
    using Suc.prems(4) by simp
  then have c1: "currentIndex s1 = currentIndex s + 1"
    using renderAfter_keeps(1) [OF s1] nextItem_repeating(1) [OF Suc.prems(3,1)] by simp
  have r1: "carouselContentWrapperRef s1 \<noteq> None"
    using renderAfter_keeps(2) [OF s1] nextItem_repeating(2) [OF Suc.prems(3,1)] by simp
  have "currentIndex s1 + int k \<le> lengthC p - itemsPerView p"
    using c1 Suc.prems(4) by simp
  from Suc.IH [OF Suc.prems(1,2) r1 this] obtain s' where
    "run p (replicate k NextItem) s1 = Some s'" "currentIndex s' = currentIndex s1 + int k"
    "carouselContentWrapperRef s' \<noteq> None" by blast
  then show ?case using s1 c1 by simp
qed

text \<open>
  C4, as the code has it. In a repeating configuration, with an element behind the ref,
  \<^verbatim>\<open>nextItem()\<close> called \<open>k\<close> times from index 0 gives index \<open>k\<close> for every
  \<open>k \<le> length - itemsPerView\<close>, and one call more gives index 0 again: the cycle
  runs through \<open>[0, length - itemsPerView]\<close> and has \<open>length - itemsPerView + 1\<close>
  steps, which is \<open>length\<close> steps through \<open>[0, length - 1]\<close> exactly for one item
  per view.
\<close>

theorem nextItem_cycle:
  assumes "infiniteLoop p" and "lengthC p > itemsPerView p" and "1 \<le> itemsPerView p"
    and "carouselContentWrapperRef s \<noteq> None" and "currentIndex s = 0"
  shows "(int k \<le> lengthC p - itemsPerView p \<longrightarrow>
            map_option currentIndex (run p (replicate k NextItem) s) = Some (int k))
       \<and> map_option currentIndex
            (run p (replicate (nat (lengthC p - itemsPerView p) + 1) NextItem) s) = Some 0"
proof -
  have rep: "isRepeating p"
    using assms(1,2) by (simp add: isRepeating_def lengthC_def)
  have nz: "itemsPerView p \<noteq> 0"
    using assms(3) by simp
  have count: "map_option currentIndex (run p (replicate j NextItem) s) = Some (int j)"
    if "int j \<le> lengthC p - itemsPerView p" for j
    using run_nextItem_counts [OF rep nz assms(4), of j] that assms(5) by auto
  let ?n = "nat (lengthC p - itemsPerView p)"
  have n: "int ?n = lengthC p - itemsPerView p"
    using assms(2) by simp
  obtain sn where sn: "run p (replicate ?n NextItem) s = Some sn"
      "currentIndex sn = int ?n" "carouselContentWrapperRef sn \<noteq> None"
    using run_nextItem_counts [OF rep nz assms(4), of ?n] assms(5) n by auto
  obtain s1 where s1: "renderAfter p sn (nextItem p sn) = Some s1"
    using renderAfter_Some [OF nz] by blast
  have "currentIndex s1 = 0"
    using renderAfter_keeps(1) [OF s1] nextItem_repeating(1) [OF sn(3) rep] sn(2) n by simp
  moreover have "run p (replicate (?n + 1) NextItem) s = Some s1"
  proof -
    have eq: "replicate (?n + 1) NextItem = replicate ?n NextItem @ [NextItem]"
      by (simp add: replicate_append_same)
    show ?thesis
      unfolding eq run_append sn(1) using s1 by simp
  qed
  ultimately show ?thesis using count by simp
qed

theorem nextItem_cycle_witness:
  "infiniteLoop (defaults 5 4 True) \<and> lengthC (defaults 5 4 True) > itemsPerView (defaults 5 4 True)
   \<and> 1 \<le> itemsPerView (defaults 5 4 True)
   \<and> carouselContentWrapperRef (mount (wrapper 400 0) initial) \<noteq> None
   \<and> currentIndex (mount (wrapper 400 0) initial) = 0
   \<and> int 1 \<le> lengthC (defaults 5 4 True) - itemsPerView (defaults 5 4 True)
   \<and> map_option currentIndex
        (run (defaults 5 4 True) (replicate 1 NextItem) (mount (wrapper 400 0) initial)) = Some 1
   \<and> map_option currentIndex
        (run (defaults 5 4 True) (replicate 2 NextItem) (mount (wrapper 400 0) initial)) = Some 0"
  using nextItem_cycle [of "defaults 5 4 True" "mount (wrapper 400 0) initial" 1]
  by (simp add: sample_defs lengthC_def Children_count_def eval_nat_numeral)

text \<open>
  The claim C4 at 5 items, 4 per view, looping: five calls of \<^verbatim>\<open>nextItem()\<close> from
  index 0 do not end at index 0; the index is back at 0 after two calls already.
\<close>

theorem nextItem_cycle_is_shorter:
  "isRepeating (defaults 5 4 True) \<and> lengthC (defaults 5 4 True) = 5
   \<and> currentIndex (mount (wrapper 400 0) initial) = 0
   \<and> map_option currentIndex
        (run (defaults 5 4 True) (replicate 5 NextItem) (mount (wrapper 400 0) initial)) \<noteq> Some 0
   \<and> map_option currentIndex
        (run (defaults 5 4 True) (replicate 2 NextItem) (mount (wrapper 400 0) initial)) = Some 0"
  by (simp add: sample_defs command_defs lengthC_def Children_count_def
      isRepeating_def renderAfter_def same_state_def rerender_def itemWidth_memo_def
      fl_examples eval_nat_numeral)

subsection \<open>The snap\<close>

lemma children_truthy_uptoD:
  assumes "children_truthy_upto p i" and "0 \<le> k" and "k \<le> i"
  shows "child_at_truthy (Children_toArray (children p)) k"
proof -
  let ?arr = "Children_toArray (children p)"
  have "nat i < length ?arr" and all: "list_all truthy_child (take (nat i + 1) ?arr)"
    using assms(1) by (simp_all add: children_truthy_upto_def)
  then have len: "nat k < length ?arr"
    using assms(3) by linarith
  have "nat k < length (take (nat i + 1) ?arr)"
    using len assms(2,3) by simp
  then have "truthy_child (take (nat i + 1) ?arr ! nat k)"
    using all by (simp add: list_all_length)
  then have "truthy_child (?arr ! nat k)"
    using assms(2,3) by simp
  then show ?thesis
    using len assms(2) by (simp add: child_at_truthy_def)
qed

lemma closestLoop_first_slot:
  assumes "index \<le> i" and "i < lengthC p"
    and "\<forall>k. index \<le> k \<and> k \<le> i \<longrightarrow> child_at_truthy (Children_toArray (children p)) k"
    and "\<forall>k. index \<le> k \<and> k < i \<longrightarrow> \<not> in_slot (itemWidth s) (domScrollLeft el) k"
    and "in_slot (itemWidth s) (domScrollLeft el) i"
  shows "closestLoop p el index s =
           (let newIndex = (if middle_of (itemWidth s) i > domScrollLeft el then i else i + 1)
            in scrollRefTo (fl (real_of_int newIndex * itemWidth s))
                 (s\<lparr> scrollLeft := fl (real_of_int newIndex * itemWidth s),
                     currentIndex := newIndex \<rparr>))"
  using assms
proof (induction "nat (i - index)" arbitrary: index)
  case 0
  then have "index = i" by simp
  with "0.prems" show ?case
    by (simp add: closestLoop.simps [of p el i s] Let_def in_slot_def middle_of_def
        childLeft_of_def)
next
  case (Suc n)
  then have lt: "index < i" by simp
  have here: "child_at_truthy (Children_toArray (children p)) index"
    using Suc.prems(3) lt by simp
  have miss: "\<not> in_slot (itemWidth s) (domScrollLeft el) index"
    using Suc.prems(4) lt by simp
  have step: "closestLoop p el index s = closestLoop p el (index + 1) s"
    using lt Suc.prems(2) here miss
    by (subst closestLoop.simps) (auto simp: Let_def in_slot_def childLeft_of_def)
  have "n = nat (i - (index + 1))"
    using Suc.hyps(2) by simp
  moreover have "index + 1 \<le> i" using lt by simp
  moreover have "\<forall>k. index + 1 \<le> k \<and> k \<le> i \<longrightarrow>
      child_at_truthy (Children_toArray (children p)) k"
    using Suc.prems(3) by simp
  moreover have "\<forall>k. index + 1 \<le> k \<and> k < i \<longrightarrow>
      \<not> in_slot (itemWidth s) (domScrollLeft el) k"
    using Suc.prems(4) by simp
  ultimately show ?case
    unfolding step using Suc.hyps(1) Suc.prems(2,5) by blast
qed

lemma first_slot_before:
  assumes "first_slot w x i" and "0 \<le> k" and "k < i"
  shows "\<not> in_slot w x k"
  using assms by (auto simp: first_slot_def list_ex_iff)

text \<open>An offset that some slot holds has a first slot that holds it.\<close>

lemma first_slot_exists:
  assumes "0 \<le> i" and "in_slot w x i"
  shows "\<exists>j. 0 \<le> j \<and> j \<le> i \<and> first_slot w x j"
  using assms
proof (induction "nat i" arbitrary: i rule: less_induct)
  case less
  show ?case
  proof (cases "list_ex (in_slot w x) [0 .. i - 1]")
    case False
    then show ?thesis
      using less.prems by (auto simp: first_slot_def)
  next
    case True
    then obtain k where k: "0 \<le> k" "k < i" "in_slot w x k"
      by (auto simp: list_ex_iff)
    then have "nat k < nat i" by simp
    from less.hyps [OF this k(1,3)] obtain j where "0 \<le> j" "j \<le> k" "first_slot w x j"
      by blast
    then show ?thesis using k(2) by auto
  qed
qed

lemma items_truthy_upto:
  assumes "0 \<le> i" and "i < int n"
  shows "children_truthy_upto (defaults n ipv loop) i"
proof -
  have arr: "Children_toArray (items n) = items n"
    by (simp add: Children_toArray_def items_def filter_map comp_def)
  have "list_all truthy_child (items n)"
    by (simp add: items_def list_all_iff)
  then have "list_all truthy_child (take (nat i + 1) (items n))"
    by (auto simp: list_all_iff dest: in_set_takeD)
  then show ?thesis
    using assms by (simp add: children_truthy_upto_def defaults_def arr) (simp add: items_def)
qed

text \<open>
  C3, as the code has it. The loop scans the items from the left and stops at the first
  item \<open>i\<close> whose slot holds the scroll position, the edges of the slot being
  \<^verbatim>\<open>itemWidth * i\<close> and \<^verbatim>\<open>childLeft + itemWidth\<close> as doubles. With an element behind the
  ref and truthy children up to \<open>i\<close>, the snap resolves to \<open>i\<close> when the position is
  less than the middle \<^verbatim>\<open>childLeft + itemWidth / 2\<close> the code computes, and to \<open>i + 1\<close>
  otherwise: a position equal to the computed middle resolves to \<open>i + 1\<close>. The state
  offset and the scroll request are the resolved index times the item width.
\<close>

theorem snap_resolves:
  assumes "carouselContentWrapperRef s = Some el" and "layout_range p s"
    and "0 \<le> i" and "i < lengthC p" and "children_truthy_upto p i"
    and "first_slot (itemWidth s) (domScrollLeft el) i"
  shows "currentIndex (scrollToClosestItemIndex p s) =
           (if domScrollLeft el < middle_of (itemWidth s) i then i else i + 1)
       \<and> scrollLeft (scrollToClosestItemIndex p s) =
           fl (real_of_int (currentIndex (scrollToClosestItemIndex p s)) * itemWidth s)
       \<and> map_option domScrollLeft (carouselContentWrapperRef (scrollToClosestItemIndex p s)) =
           Some (fl (real_of_int (currentIndex (scrollToClosestItemIndex p s)) * itemWidth s))"
proof -
  have snap: "scrollToClosestItemIndex p s = closestLoop p el 0 s"
    using assms(1) by (simp add: scrollToClosestItemIndex_def)
  have truthy: "\<forall>k. 0 \<le> k \<and> k \<le> i \<longrightarrow> child_at_truthy (Children_toArray (children p)) k"
    using children_truthy_uptoD [OF assms(5)] by blast
  have before: "\<forall>k. 0 \<le> k \<and> k < i \<longrightarrow> \<not> in_slot (itemWidth s) (domScrollLeft el) k"
    using first_slot_before [OF assms(6)] by blast
  have here: "in_slot (itemWidth s) (domScrollLeft el) i"
    using assms(6) by (simp add: first_slot_def)
  show ?thesis
    unfolding snap closestLoop_first_slot [OF assms(3,4) truthy before here]
    using assms(1) by (simp add: Let_def)
qed

theorem snap_resolves_witness:
  "carouselContentWrapperRef released_at_250 = Some scrolled_250
   \<and> layout_range (defaults 10 4 False) released_at_250
   \<and> (0::int) \<le> 2 \<and> 2 < lengthC (defaults 10 4 False)
   \<and> children_truthy_upto (defaults 10 4 False) 2
   \<and> first_slot (itemWidth released_at_250) (domScrollLeft scrolled_250) 2
   \<and> middle_of (itemWidth released_at_250) 2 = 250
   \<and> currentIndex (scrollToClosestItemIndex (defaults 10 4 False) released_at_250) = 3
   \<and> scrollLeft (scrollToClosestItemIndex (defaults 10 4 False) released_at_250) = 300"
proof -
  have h1: "carouselContentWrapperRef released_at_250 = Some scrolled_250"
    by (simp add: released_at_250_def)
  have h2: "layout_range (defaults 10 4 False) released_at_250"
    by (simp add: layout_range_def released_at_250_def lengthC_def Children_count_def
        defaults_def items_def)
  have h3: "(0::int) \<le> 2" by simp
  have h4: "2 < lengthC (defaults 10 4 False)"
    by (simp add: lengthC_def Children_count_def defaults_def items_def)
  have h5: "children_truthy_upto (defaults 10 4 False) 2"
    by (rule items_truthy_upto) simp_all
  have w: "itemWidth released_at_250 = 100" and x: "domScrollLeft scrolled_250 = 250"
    by (simp_all add: released_at_250_def scrolled_250_def)
  have h6: "first_slot (itemWidth released_at_250) (domScrollLeft scrolled_250) 2"
    unfolding w x
    by (simp add: first_slot_def in_slot_def childLeft_of_def upto.simps fl_eval)
  have m: "middle_of (itemWidth released_at_250) 2 = 250"
    unfolding w by (simp add: middle_of_def childLeft_of_def fl_eval)
  have f: "fl (real_of_int 3 * 100) = 300"
    by (simp add: fl_eval)
  show ?thesis
    using snap_resolves [OF h1 h2 h3 h4 h5 h6] h1 h2 h4 h5 h6 m f
    by (simp add: w x)
qed

text \<open>
  The claim C3 at the exact middle of the first slot, offset 50 with items 100 wide,
  where every operation of the loop is exact in doubles: the snap resolves to index 1,
  not 0. The same offset is reached by pressing at 100, dragging to 50 and releasing.
\<close>

theorem snap_tie_goes_right:
  "itemWidth at_midpoint = 100
   \<and> map_option domScrollLeft (carouselContentWrapperRef at_midpoint) = Some 50
   \<and> currentIndex (scrollToClosestItemIndex (defaults 10 4 False) at_midpoint) \<noteq> 0
   \<and> currentIndex (scrollToClosestItemIndex (defaults 10 4 False) at_midpoint) = 1
   \<and> map_option currentIndex
        (run (defaults 10 4 False) [MouseDown 100, MouseMove 50, MouseMove 50, MouseUp]
           (mount (wrapper 400 0) initial)) = Some 1"
  by (simp add: at_midpoint_def sample_defs scrollToClosestItemIndex_def closestLoop.simps
      child_at_truthy_def Children_toArray_def lengthC_def Children_count_def
      handleOnMouseDown_def handleOnMouseMove_def handleOnMouseUp_def walk_of_def
      renderAfter_def same_state_def rerender_def itemWidth_memo_def fl_eval)

text \<open>
  Where the item width is not an integer, the middle the code computes need not be the
  middle of the slot. With 400 pixels and 7 items per view the computed middle of the
  fourth slot is above 200, and a release at 200 resolves to index 3; with 320 pixels and
  3 per view the computed middle of the second slot is 160, and a release at 160 resolves
  to index 2.
\<close>

lemma snap_follows_computed_middle:
  "200 < middle_of (fl (400 / 7)) 3"
  "currentIndex (scrollToClosestItemIndex (defaults 10 7 False) (released_at 400 7 200)) = 3"
  "middle_of (fl (320 / 3)) 1 = 160"
  "currentIndex (scrollToClosestItemIndex (defaults 10 3 False) (released_at 320 3 160)) = 2"
  "map_option currentIndex
     (run (defaults 10 7 False) [MouseDown 300, MouseMove 100, MouseMove 100, MouseUp]
        (mount (wrapper 400 0) initial)) = Some 3"
  by (simp_all add: released_at_def sample_defs scrollToClosestItemIndex_def closestLoop.simps
      child_at_truthy_def Children_toArray_def lengthC_def Children_count_def
      middle_of_def childLeft_of_def
      handleOnMouseDown_def handleOnMouseMove_def handleOnMouseUp_def walk_of_def
      renderAfter_def same_state_def rerender_def itemWidth_memo_def fl_eval)

subsection \<open>Gestures\<close>

text \<open>
  A release clears the press position and the drag flag, whatever the snap does. Leaving
  and cancelling do the same as a release when the press position is truthy.
\<close>

lemma closestLoop_keeps:
  "touchClickPosition (closestLoop p el index s) = touchClickPosition s
   \<and> isDragging (closestLoop p el index s) = isDragging s
   \<and> isMouseInside (closestLoop p el index s) = isMouseInside s"
proof (induction p el index s rule: closestLoop.induct)
  case (1 p el index s)
  show ?case
    using "1.IH" by (subst (1 2 3) closestLoop.simps) (simp add: Let_def)
qed

lemma scrollToClosestItemIndex_keeps:
  "touchClickPosition (scrollToClosestItemIndex p s) = touchClickPosition s"
  "isDragging (scrollToClosestItemIndex p s) = isDragging s"
  "isMouseInside (scrollToClosestItemIndex p s) = isMouseInside s"
  using closestLoop_keeps
  by (simp_all add: scrollToClosestItemIndex_def split: option.split)

lemma release_resolves_session:
  "touchClickPosition (handleOnMouseUp p s) = None \<and> \<not> isDragging (handleOnMouseUp p s)"
  "touchClickPosition (handleOnTouchEnd p s) = None \<and> \<not> isDragging (handleOnTouchEnd p s)"
  by (simp_all add: handleOnMouseUp_def handleOnTouchEnd_def Let_def scrollToClosestItemIndex_keeps)

lemma leave_with_truthy_position:
  assumes "truthy_position (touchClickPosition s)"
  shows "handleOnMouseLeave p s = (handleOnMouseUp p s)\<lparr> isMouseInside := False \<rparr>"
    and "handleOnTouchCancel p s = handleOnTouchEnd p s"
proof -
  show "handleOnMouseLeave p s = (handleOnMouseUp p s)\<lparr> isMouseInside := False \<rparr>"
    using assms by (simp add: handleOnMouseLeave_def)
  have "\<not> isDragging (handleOnTouchEnd p s)"
    using release_resolves_session(2) by simp
  then have "(handleOnTouchEnd p s)\<lparr> isDragging := False \<rparr> = handleOnTouchEnd p s"
    by simp
  then show "handleOnTouchCancel p s = handleOnTouchEnd p s"
    using assms by (simp add: handleOnTouchCancel_def Let_def)
qed

text \<open>
  C5. The claim: mouse-leave and touch-cancel resolve every open drag session as a
  release does, also one pressed at position 0. The code, with a wrapper at left offset
  20, pressed at \<open>pageX = 20\<close> (position 0) and dragged to \<open>pageX = 50\<close>: after
  mouse-leave the position is still recorded and \<open>isDragging\<close> still true, where
  mouse-up clears both; after touch-cancel the position is still recorded, where
  touch-end clears it.
\<close>

theorem leave_at_position_zero_keeps_session:
  "map_option (\<lambda>s. (touchClickPosition s, isDragging s))
     (run (defaults 5 4 False) [MouseDown 20, MouseMove 50] (mount (wrapper 400 20) initial))
     = Some (Some 0, True)
   \<and> map_option (\<lambda>s. (touchClickPosition s, isDragging s))
     (run (defaults 5 4 False) [MouseDown 20, MouseMove 50, MouseLeave] (mount (wrapper 400 20) initial))
     = Some (Some 0, True)
   \<and> map_option (\<lambda>s. (touchClickPosition s, isDragging s))
     (run (defaults 5 4 False) [MouseDown 20, MouseMove 50, MouseUp] (mount (wrapper 400 20) initial))
     = Some (None, False)
   \<and> map_option (\<lambda>s. (touchClickPosition s, isDragging s))
     (run (defaults 5 4 False) [TouchStart 20, TouchMove 50, TouchCancel] (mount (wrapper 400 20) initial))
     = Some (Some 0, False)
   \<and> map_option (\<lambda>s. (touchClickPosition s, isDragging s))
     (run (defaults 5 4 False) [TouchStart 20, TouchMove 50, TouchEnd] (mount (wrapper 400 20) initial))
     = Some (None, False)"
  by (simp add: sample_defs handleOnMouseDown_def handleOnMouseMove_def handleOnMouseLeave_def
      handleOnMouseUp_def handleOnTouchStart_def handleOnTouchMove_def handleOnTouchCancel_def
      handleOnTouchEnd_def walk_of_def scrollToClosestItemIndex_def closestLoop.simps
      child_at_truthy_def Children_toArray_def lengthC_def Children_count_def
      renderAfter_def same_state_def rerender_def itemWidth_memo_def fl_eval)

lemma walk_of_offsetLeft:
  "offsetLeft el' = offsetLeft el \<Longrightarrow> walk_of p el' pageX origin = walk_of p el pageX origin"
  by (simp add: walk_of_def)

lemma mouseMove_isDragging:
  assumes "touchClickPosition s = Some origin" and "carouselContentWrapperRef s = Some el"
  shows "isDragging (handleOnMouseMove p pageX s) =
           (isDragging s \<or> \<bar>walk_of p el pageX origin\<bar> > minDragDistance p)"
  using assms by (auto simp: handleOnMouseMove_def Let_def)

lemma touchMove_isDragging:
  assumes "touchClickPosition s = Some origin" and "carouselContentWrapperRef s = Some el"
  shows "isDragging (handleOnTouchMove p pageX s) =
           (isDragging s \<or> \<bar>walk_of p el pageX origin\<bar> > minDragDistance p)"
  using assms by (auto simp: handleOnTouchMove_def Let_def)

lemma move_keeps_session:
  assumes "touchClickPosition s = Some origin"
  shows "touchClickPosition (handleOnMouseMove p pageX s) = Some origin"
    and "touchClickPosition (handleOnTouchMove p pageX s) = Some origin"
    and "map_option offsetLeft (carouselContentWrapperRef (handleOnMouseMove p pageX s))
           = map_option offsetLeft (carouselContentWrapperRef s)"
    and "map_option offsetLeft (carouselContentWrapperRef (handleOnTouchMove p pageX s))
           = map_option offsetLeft (carouselContentWrapperRef s)"
  using assms
  by (auto simp: handleOnMouseMove_def handleOnTouchMove_def Let_def split: option.split)

lemma under_threshold_step:
  assumes "touchClickPosition s = Some origin"
    and "carouselContentWrapperRef s = Some el'" and "offsetLeft el' = offsetLeft el"
    and "itemsPerView p \<noteq> 0"
    and "under_threshold p el origin e"
  shows "\<exists>s' el''. renderAfter p s (handle p e s) = Some s' \<and> isDragging s' = isDragging s
           \<and> touchClickPosition s' = Some origin
           \<and> carouselContentWrapperRef s' = Some el'' \<and> offsetLeft el'' = offsetLeft el"
proof -
  obtain w where w: "renderAfter p s (handle p e s) = Some ((handle p e s)\<lparr> itemWidth := w \<rparr>)"
    using renderAfter_Some [OF assms(4)] by blast
  have walk: "walk_of p el' x origin = walk_of p el x origin" for x
    using assms(3) by (rule walk_of_offsetLeft)
  from assms(5) consider x where "e = MouseMove x" "\<bar>walk_of p el x origin\<bar> \<le> minDragDistance p"
    | x where "e = TouchMove x" "\<bar>walk_of p el x origin\<bar> \<le> minDragDistance p"
    by (cases e) auto
  then show ?thesis
  proof cases
    case 1
    have "isDragging (handleOnMouseMove p x s) = isDragging s"
      using mouseMove_isDragging [OF assms(1,2), of p x] 1(2) walk by auto
    moreover have "touchClickPosition (handleOnMouseMove p x s) = Some origin"
      using move_keeps_session(1) [OF assms(1)] .
    moreover have "map_option offsetLeft (carouselContentWrapperRef (handleOnMouseMove p x s))
        = Some (offsetLeft el)"
      using move_keeps_session(3) [OF assms(1), of p x] assms(2,3) by simp
    ultimately show ?thesis using w 1(1) by auto
  next
    case 2
    have "isDragging (handleOnTouchMove p x s) = isDragging s"
      using touchMove_isDragging [OF assms(1,2), of p x] 2(2) walk by auto
    moreover have "touchClickPosition (handleOnTouchMove p x s) = Some origin"
      using move_keeps_session(2) [OF assms(1)] .
    moreover have "map_option offsetLeft (carouselContentWrapperRef (handleOnTouchMove p x s))
        = Some (offsetLeft el)"
      using move_keeps_session(4) [OF assms(1), of p x] assms(2,3) by simp
    ultimately show ?thesis using w 2(1) by auto
  qed
qed

lemma under_threshold_run:
  assumes "touchClickPosition s = Some origin"
    and "carouselContentWrapperRef s = Some el'" and "offsetLeft el' = offsetLeft el"
    and "itemsPerView p \<noteq> 0"
    and "\<forall>e\<in>set es. under_threshold p el origin e"
  shows "\<exists>s' el''. run p es s = Some s' \<and> isDragging s' = isDragging s
           \<and> touchClickPosition s' = Some origin
           \<and> carouselContentWrapperRef s' = Some el'' \<and> offsetLeft el'' = offsetLeft el"
  using assms
proof (induction es arbitrary: s el')
  case Nil
  then show ?case by simp
next
  case (Cons e es)
  from Cons.prems have e: "under_threshold p el origin e"
    and es: "\<forall>e\<in>set es. under_threshold p el origin e" by simp_all
  obtain s1 el1 where s1: "renderAfter p s (handle p e s) = Some s1" "isDragging s1 = isDragging s"
      "touchClickPosition s1 = Some origin" "carouselContentWrapperRef s1 = Some el1"
      "offsetLeft el1 = offsetLeft el"
    using under_threshold_step [OF Cons.prems(1,2,3,4) e] by blast
  obtain s' el'' where "run p es s1 = Some s'" "isDragging s' = isDragging s1"
      "touchClickPosition s' = Some origin" "carouselContentWrapperRef s' = Some el''"
      "offsetLeft el'' = offsetLeft el"
    using Cons.IH [OF s1(3,4,5) Cons.prems(4) es] by blast
  then show ?case using s1(1,2) by simp
qed

text \<open>
  C8. During an active session (a press position is recorded and the ref holds the
  element), after any sequence of mouse and touch moves whose walk does not exceed
  \<^verbatim>\<open>minDragDistance\<close> the tracker is as far from dragging as before: a session that was
  only pressed is still only pressed. One more move within the threshold does not set
  \<open>isDragging\<close> either, and a single move beyond it does.
\<close>

theorem drag_commit_threshold:
  assumes "touchClickPosition s = Some origin"
    and "carouselContentWrapperRef s = Some el"
    and "itemsPerView p \<noteq> 0"
    and "\<forall>e\<in>set es. under_threshold p el origin e"
  shows "\<exists>s'. run p es s = Some s' \<and> isDragging s' = isDragging s
           \<and> (\<bar>walk_of p el pageX origin\<bar> \<le> minDragDistance p \<longrightarrow>
                 isDragging (handleOnMouseMove p pageX s') = isDragging s
               \<and> isDragging (handleOnTouchMove p pageX s') = isDragging s)
           \<and> (\<bar>walk_of p el pageX origin\<bar> > minDragDistance p \<longrightarrow>
                 isDragging (handleOnMouseMove p pageX s')
               \<and> isDragging (handleOnTouchMove p pageX s'))"
proof -
  obtain s' el' where s': "run p es s = Some s'" "isDragging s' = isDragging s"
      "touchClickPosition s' = Some origin" "carouselContentWrapperRef s' = Some el'"
      "offsetLeft el' = offsetLeft el"
    using under_threshold_run [OF assms(1,2) refl assms(3,4)] by blast
  have walk: "walk_of p el' pageX origin = walk_of p el pageX origin"
    using s'(5) by (rule walk_of_offsetLeft)
  show ?thesis
    using s'(1,2) mouseMove_isDragging [OF s'(3,4), of p pageX]
      touchMove_isDragging [OF s'(3,4), of p pageX] walk
    by auto
qed

theorem drag_commit_threshold_witness:
  "touchClickPosition pressed_50 = Some 50
   \<and> carouselContentWrapperRef pressed_50 = Some scrolled_300
   \<and> itemsPerView (defaults 10 4 False) \<noteq> 0
   \<and> under_threshold (defaults 10 4 False) scrolled_300 50 (MouseMove 51)
   \<and> under_threshold (defaults 10 4 False) scrolled_300 50 (TouchMove 48)
   \<and> \<bar>walk_of (defaults 10 4 False) scrolled_300 70 50\<bar> > minDragDistance (defaults 10 4 False)
   \<and> map_option isDragging (run (defaults 10 4 False) [MouseMove 51, TouchMove 48] pressed_50)
       = Some False
   \<and> map_option isDragging
       (run (defaults 10 4 False) [MouseMove 51, TouchMove 48, MouseMove 70] pressed_50)
       = Some True"
  using drag_commit_threshold [of pressed_50 50 scrolled_300 "defaults 10 4 False"
      "[MouseMove 51, TouchMove 48]" 70]
  by (simp add: pressed_50_def scrolled_300_def sample_defs walk_of_def handleOnMouseMove_def
      handleOnTouchMove_def renderAfter_def same_state_def rerender_def itemWidth_memo_def
      fl_examples)

text \<open>
  The claim C7 at a press at position 50 with the baseline 300: the move to position 70
  makes the tracker dragging, and the wrapper is not scrolled to \<open>300 - 20\<close> by it.
\<close>

theorem crossing_move_writes_no_offset:
  "gesture_of pressed_50 = Pressed
   \<and> scrollLeft pressed_50 = 300
   \<and> walk_of (defaults 10 4 False) scrolled_300 70 50 = 20
   \<and> gesture_of (handleOnMouseMove (defaults 10 4 False) 70 pressed_50) = Dragging
   \<and> map_option domScrollLeft
        (carouselContentWrapperRef (handleOnMouseMove (defaults 10 4 False) 70 pressed_50))
       \<noteq> Some (300 - 20)
   \<and> gesture_of (handleOnTouchMove (defaults 10 4 False) 70 pressed_50) = Dragging
   \<and> map_option domScrollLeft
        (carouselContentWrapperRef (handleOnTouchMove (defaults 10 4 False) 70 pressed_50))
       \<noteq> Some (300 - 20)"
  by (simp add: pressed_50_def scrolled_300_def sample_defs walk_of_def handleOnMouseMove_def
      handleOnTouchMove_def gesture_of_def)

text \<open>
  C7, as the code has it. In a pressed session with the origin 50, sensitivity 1 and
  minimal drag distance 2, a move to position 70 has the walk 20 and makes the tracker
  dragging, but leaves the wrapper where it is: the handler tests the \<open>isDragging\<close> of
  the render it belongs to. The next move, handled after the render that follows, scrolls
  the wrapper to the baseline minus the walk.
\<close>

theorem crossing_move_then_next_move:
  assumes "touchClickPosition s = Some 50" and "\<not> isDragging s"
    and "carouselContentWrapperRef s = Some el" and "pageX - offsetLeft el = 70"
    and "scrollSensitivity p = 1" and "minDragDistance p = 2" and "itemsPerView p \<noteq> 0"
  shows "walk_of p el pageX 50 = 20
       \<and> gesture_of (handleOnMouseMove p pageX s) = Dragging
       \<and> carouselContentWrapperRef (handleOnMouseMove p pageX s) = Some el
       \<and> gesture_of (handleOnTouchMove p pageX s) = Dragging
       \<and> carouselContentWrapperRef (handleOnTouchMove p pageX s) = Some el
       \<and> map_option gesture_of (run p [MouseMove pageX, MouseMove pageX] s) = Some Dragging
       \<and> map_option domScrollLeft
            (Option.bind (run p [MouseMove pageX, MouseMove pageX] s) carouselContentWrapperRef)
           = Some (scrollLeft s - 20)
       \<and> map_option gesture_of (run p [TouchMove pageX, TouchMove pageX] s) = Some Dragging
       \<and> map_option domScrollLeft
            (Option.bind (run p [TouchMove pageX, TouchMove pageX] s) carouselContentWrapperRef)
           = Some (scrollLeft s - 20)"
proof -
  have walk: "walk_of p el pageX 50 = 20"
    using assms(4,5) by (simp add: walk_of_def)
  have m1: "handleOnMouseMove p pageX s = s\<lparr> isDragging := True \<rparr>"
    using assms(1,2,3,6) walk by (simp add: handleOnMouseMove_def)
  have t1: "handleOnTouchMove p pageX s = s\<lparr> isDragging := True \<rparr>"
    using assms(1,2,3,6) walk by (simp add: handleOnTouchMove_def)
  obtain w where w: "renderAfter p s (s\<lparr> isDragging := True \<rparr>)
      = Some (s\<lparr> isDragging := True, itemWidth := w \<rparr>)"
    using renderAfter_Some [OF assms(7), of s "s\<lparr> isDragging := True \<rparr>"] by auto
  let ?s1 = "s\<lparr> isDragging := True, itemWidth := w \<rparr>"
  have m2: "handleOnMouseMove p pageX ?s1 = scrollRefTo (scrollLeft s - 20) ?s1"
    using assms(1,3) walk by (simp add: handleOnMouseMove_def)
  have t2: "handleOnTouchMove p pageX ?s1 = scrollRefTo (scrollLeft s - 20) ?s1"
    using assms(1,3) walk by (simp add: handleOnTouchMove_def)
  obtain w' where w': "renderAfter p ?s1 (scrollRefTo (scrollLeft s - 20) ?s1)
      = Some ((scrollRefTo (scrollLeft s - 20) ?s1)\<lparr> itemWidth := w' \<rparr>)"
    using renderAfter_Some [OF assms(7)] by blast
  let ?s2 = "(scrollRefTo (scrollLeft s - 20) ?s1)\<lparr> itemWidth := w' \<rparr>"
  have rm: "run p [MouseMove pageX, MouseMove pageX] s = Some ?s2"
    by (simp add: m1 w m2 w')
  have rt: "run p [TouchMove pageX, TouchMove pageX] s = Some ?s2"
    by (simp add: t1 w t2 w')
  have g2: "gesture_of ?s2 = Dragging"
    by (simp add: gesture_of_def)
  have d2: "map_option domScrollLeft (carouselContentWrapperRef ?s2) = Some (scrollLeft s - 20)"
    using assms(3) by simp
  have g1: "gesture_of (s\<lparr> isDragging := True \<rparr>) = Dragging"
    by (simp add: gesture_of_def)
  have r1: "carouselContentWrapperRef (s\<lparr> isDragging := True \<rparr>) = Some el"
    using assms(3) by simp
  show ?thesis
    unfolding rm rt m1 t1 option.map bind.bind_lunit g1 g2 d2 r1 walk by simp
qed

theorem crossing_move_then_next_move_witness:
  "touchClickPosition pressed_50 = Some 50 \<and> \<not> isDragging pressed_50
   \<and> carouselContentWrapperRef pressed_50 = Some scrolled_300
   \<and> 70 - offsetLeft scrolled_300 = 70
   \<and> scrollSensitivity (defaults 10 4 False) = 1 \<and> minDragDistance (defaults 10 4 False) = 2
   \<and> itemsPerView (defaults 10 4 False) \<noteq> 0
   \<and> gesture_of (handleOnMouseMove (defaults 10 4 False) 70 pressed_50) = Dragging
   \<and> carouselContentWrapperRef (handleOnMouseMove (defaults 10 4 False) 70 pressed_50)
       = Some scrolled_300
   \<and> map_option domScrollLeft
        (Option.bind (run (defaults 10 4 False) [MouseMove 70, MouseMove 70] pressed_50)
           carouselContentWrapperRef)
       = Some 280"
  using crossing_move_then_next_move [of pressed_50 scrolled_300 70 "defaults 10 4 False"]
  by (simp add: pressed_50_def scrolled_300_def sample_defs)

subsection \<open>Indicator dots\<close>

text \<open>The dots rendered are those of the indices \<open>0, ..., length - 1\<close>.\<close>

lemma renderDots_entries:
  assumes "(index, c) \<in> set (renderDots names cur len)"
  shows "0 \<le> index \<and> index < len \<and> c = className names (classify index cur len)"
  using assms by (auto simp: renderDots_def)

text \<open>
  C9. For a dot index (which is never negative) the class of the dot is \<open>active\<close>
  exactly at the current index; otherwise, with the current index 0, \<open>close\<close> for
  \<open>index \<le> 2\<close> and \<open>far\<close> beyond; with the current index \<open>length - 1\<close>, \<open>close\<close> within
  distance 2 and \<open>far\<close> beyond; anywhere else \<open>close\<close> at distance 1 and \<open>far\<close> else.
  With 20 dots and the current index 0, dot 2 is \<open>close\<close> and dot 3 is \<open>far\<close>.
\<close>

theorem classify_cases:
  assumes "0 \<le> index"
  shows "(classify index c n = Active \<longleftrightarrow> index = c)
       \<and> (index \<noteq> c \<and> c = 0 \<longrightarrow> classify index c n = (if index \<le> 2 then Close else Far))
       \<and> (index \<noteq> c \<and> c = n - 1 \<longrightarrow>
            classify index c n = (if \<bar>c - index\<bar> \<le> 2 then Close else Far))
       \<and> (index \<noteq> c \<and> c \<noteq> 0 \<and> c \<noteq> n - 1 \<longrightarrow>
            classify index c n = (if \<bar>c - index\<bar> = 1 then Close else Far))
       \<and> classify 2 0 20 = Close \<and> classify 3 0 20 = Far"
  using assms unfolding classify_def by auto

theorem classify_cases_witness:
  "(0::int) \<le> 2 \<and> classify 2 0 20 = Close \<and> classify 3 0 20 = Far \<and> classify 0 0 20 = Active"
  using classify_cases [of 2 0 20] classify_cases [of 0 0 20] by simp

end
